theory Spec2Isabelle
  imports Main "HOL-Library.Word"
begin

section \<open>Data model\<close>

text \<open>
  Modelled from the spec: the header \<^verbatim>\<open>utils/Components.h\<close> is not among the
  sources. The component kinds are the ones the specification lists; \<open>COMP_INVALID\<close>
  stands for the component of a value-initialised record, which \<open>registerInput\<close>
  overwrites before anything reads it.
\<close>

datatype Components =
    COMP_INVALID
  | COMP_COLOR
  | COMP_EFFECT
  | COMP_IMAGE
  | COMP_GRABBER
  | COMP_BOBLIGHTSERVER
  | COMP_FLATBUFSERVER
  | COMP_PROTOSERVER
  | COMP_V4L

text \<open>
  Modelled from the spec: \<^verbatim>\<open>utils/ColorRgb.h\<close> and \<^verbatim>\<open>utils/Image.h\<close> are not among
  the sources. A colour is three bytes; an image is an opaque raster carrying its size.
  \<open>Image_empty\<close> is the default-constructed image that \<open>setInputInactive\<close> passes on.
\<close>

record ColorRgb =
  red :: "8 word"
  green :: "8 word"
  blue :: "8 word"

definition BLACK :: ColorRgb where
  "BLACK = \<lparr>red = 0, green = 0, blue = 0\<rparr>"

record Image =
  width :: nat
  height :: nat
  pixels :: "ColorRgb list"

definition Image_empty :: Image where
  "Image_empty = \<lparr>width = 0, height = 0, pixels = []\<rparr>"

text \<open>
  \<open>PriorityMuxer::InputInfo\<close>. The priority is a C++ \<open>int\<close> and the timeout an
  \<open>int64_t\<close> holding either a sentinel (\<open>-100\<close> inactive, \<open>-1\<close> no expiry) or an
  absolute deadline in milliseconds. Both are modelled as \<open>int\<close>; the only arithmetic
  on them is the \<open>int64_t\<close> sum \<open>now + timeout_ms\<close>, whose wrap-around is written
  out in \<open>final_timeout\<close>.
  The field \<open>image\<close> of the source is called \<open>image'\<close> here.
\<close>

record InputInfo =
  priority :: int
  timeoutTime_ms :: int
  ledColors :: "ColorRgb list"
  image' :: Image
  componentId :: Components
  origin :: string
  smooth_cfg :: nat
  owner :: string

text \<open>A value-initialised \<open>InputInfo\<close>, as \<open>QMap::operator[]\<close> inserts for a new key.\<close>

definition InputInfo_default :: InputInfo where
  "InputInfo_default =
     \<lparr>priority = 0, timeoutTime_ms = 0, ledColors = [], image' = Image_empty,
      componentId = COMP_INVALID, origin = [], smooth_cfg = 0, owner = []\<rparr>"

text \<open>The signals of the muxer; the trace of emitted signals is part of the state.\<close>

datatype Signal =
    priorityChanged int bool
  | prioritiesChanged
  | activeStateChanged int bool
  | visiblePriorityChanged int
  | autoSelectChanged bool
  | signalTimeTrigger
  | timeRunner

text \<open>
  The members of \<open>PriorityMuxer\<close>. \<open>activeInputs\<close> is the \<open>QMap<int, InputInfo>\<close>, kept
  as the list of its entries in ascending key order, which is the order of iteration.
  The two one-shot timers are represented by whether they are running; \<open>emitted\<close> is
  the trace of signals emitted so far, oldest first.
\<close>

record PriorityMuxer =
  currentPriority :: int
  manualSelectedPriority :: int
  activeInputs :: "(int \<times> InputInfo) list"
  lowestPriorityInfo :: InputInfo
  sourceAutoSelectEnabled :: bool
  timer_active :: bool
  blockTimer_active :: bool
  emitted :: "Signal list"

definition LOWEST_PRIORITY :: int where
  "LOWEST_PRIORITY = 255"

text \<open>Conversion of an \<open>int\<close> to \<open>uint8_t\<close> / \<open>quint8\<close>.\<close>

definition uint8_t :: "int \<Rightarrow> int" where
  "uint8_t k = k mod 256"

section \<open>The map operations used by the muxer\<close>

definition QMap_contains :: "(int \<times> 'v) list \<Rightarrow> int \<Rightarrow> bool" where
  "QMap_contains m k = (map_of m k \<noteq> None)"

fun QMap_insert :: "int \<Rightarrow> 'v \<Rightarrow> (int \<times> 'v) list \<Rightarrow> (int \<times> 'v) list" where
  "QMap_insert k v [] = [(k, v)]"
| "QMap_insert k v ((k', v') # m) =
     (if k < k' then (k, v) # (k', v') # m
      else if k = k' then (k, v) # m
      else (k', v') # QMap_insert k v m)"

text \<open>Assignment through a reference to the value stored under an existing key.\<close>

definition QMap_modify :: "int \<Rightarrow> ('v \<Rightarrow> 'v) \<Rightarrow> (int \<times> 'v) list \<Rightarrow> (int \<times> 'v) list" where
  "QMap_modify k f m = map (\<lambda>(k', v). if k' = k then (k', f v) else (k', v)) m"

text \<open>\<open>QMap::remove\<close> returns the number of entries it removed.\<close>

definition QMap_remove :: "int \<Rightarrow> (int \<times> 'v) list \<Rightarrow> nat \<times> (int \<times> 'v) list" where
  "QMap_remove k m =
     (length (filter (\<lambda>(k', v). k' = k) m), filter (\<lambda>(k', v). k' \<noteq> k) m)"

definition QMap_keys :: "(int \<times> 'v) list \<Rightarrow> int list" where
  "QMap_keys m = map fst m"

section \<open>Signals and the rate-limited trigger\<close>

definition emit :: "Signal \<Rightarrow> PriorityMuxer \<Rightarrow> PriorityMuxer" where
  "emit e s = s\<lparr>emitted := emitted s @ [e]\<rparr>"

text \<open>
  The constructor connects \<open>timeRunner\<close> and \<open>activeStateChanged\<close> to
  \<open>prioritiesChanged\<close>, and \<open>signalTimeTrigger\<close> to the slot \<open>timeTrigger\<close>. All calls
  are made on the muxer's thread, so a connected signal or slot runs at the emission.
\<close>

definition emit_timeRunner :: "PriorityMuxer \<Rightarrow> PriorityMuxer" where
  "emit_timeRunner s = emit prioritiesChanged (emit timeRunner s)"

definition emit_activeStateChanged :: "int \<Rightarrow> bool \<Rightarrow> PriorityMuxer \<Rightarrow> PriorityMuxer" where
  "emit_activeStateChanged p a s = emit prioritiesChanged (emit (activeStateChanged p a) s)"

definition timeTrigger :: "PriorityMuxer \<Rightarrow> PriorityMuxer" where
  "timeTrigger s =
     (if blockTimer_active s then s\<lparr>timer_active := True\<rparr>
      else (emit_timeRunner s)\<lparr>blockTimer_active := True\<rparr>)"

definition emit_signalTimeTrigger :: "PriorityMuxer \<Rightarrow> PriorityMuxer" where
  "emit_signalTimeTrigger s = timeTrigger (emit signalTimeTrigger s)"

text \<open>The timers running out, as the event loop delivers them.\<close>

definition blockTimer_timeout :: "PriorityMuxer \<Rightarrow> PriorityMuxer" where
  "blockTimer_timeout s = s\<lparr>blockTimer_active := False\<rparr>"

definition timer_timeout :: "PriorityMuxer \<Rightarrow> PriorityMuxer" where
  "timer_timeout s = timeTrigger (s\<lparr>timer_active := False\<rparr>)"

section \<open>The muxer\<close>

text \<open>
  The constructor. A negative LED count makes the constructor of \<open>std::vector\<close> throw,
  so that no muxer comes to exist; the count is a \<open>nat\<close>.
\<close>

definition PriorityMuxer_init :: "nat \<Rightarrow> PriorityMuxer" where
  "PriorityMuxer_init ledCount =
     (let lowest = InputInfo_default
            \<lparr>priority := LOWEST_PRIORITY,
             timeoutTime_ms := - 1,
             ledColors := replicate ledCount BLACK,
             componentId := COMP_COLOR,
             origin := ''System'',
             owner := []\<rparr>
      in \<lparr>currentPriority = LOWEST_PRIORITY,
          manualSelectedPriority = 256,
          activeInputs = QMap_insert LOWEST_PRIORITY lowest [],
          lowestPriorityInfo = lowest,
          sourceAutoSelectEnabled = True,
          timer_active = False,
          blockTimer_active = False,
          emitted = []\<rparr>)"

text \<open>
  \<open>setSourceAutoSelectEnabled\<close> and \<open>setCurrentTime\<close> call each other in the source.
  The sweep that \<open>setSourceAutoSelectEnabled\<close> runs when \<open>update\<close> holds is a
  parameter here; \<open>setCurrentTime\<close> calls it with \<open>update = false\<close>.
\<close>

definition setSourceAutoSelectEnabled_with ::
  "(PriorityMuxer \<Rightarrow> PriorityMuxer) \<Rightarrow> bool \<Rightarrow> bool \<Rightarrow> PriorityMuxer \<Rightarrow> bool \<times> PriorityMuxer" where
  "setSourceAutoSelectEnabled_with sweep enable update s =
     (if sourceAutoSelectEnabled s \<noteq> enable then
        if \<not> enable \<and> \<not> QMap_contains (activeInputs s) (manualSelectedPriority s)
        then (False, s)
        else
          let s1 = s\<lparr>sourceAutoSelectEnabled := enable\<rparr>;
              s2 = (if update then sweep s1 else s1)
          in (True, emit (autoSelectChanged enable) s2)
      else (False, s))"

text \<open>
  The loop of \<open>setCurrentTime\<close> over the entries: it returns the entries that stay, the
  running minimum \<open>newPriority\<close> and the muxer after the emissions.
\<close>

definition expired :: "int \<Rightarrow> InputInfo \<Rightarrow> bool" where
  "expired now info = (timeoutTime_ms info > 0 \<and> timeoutTime_ms info \<le> now)"

fun setCurrentTime_loop ::
  "int \<Rightarrow> (int \<times> InputInfo) list \<Rightarrow> int \<Rightarrow> PriorityMuxer
     \<Rightarrow> (int \<times> InputInfo) list \<times> int \<times> PriorityMuxer" where
  "setCurrentTime_loop now [] newPriority s = ([], newPriority, s)"
| "setCurrentTime_loop now ((k, info) # rest) newPriority s =
     (if expired now info then
        let tPrio = uint8_t (priority info);
            s1 = emit (priorityChanged tPrio False) s;
            s2 = emit prioritiesChanged s1
        in setCurrentTime_loop now rest newPriority s2
      else
        let newPriority1 =
              (if timeoutTime_ms info > - 100 then min newPriority (priority info)
               else newPriority);
            s1 = (if priority info < 254 \<and> timeoutTime_ms info > 0
                     \<and> (componentId info = COMP_EFFECT \<or> componentId info = COMP_COLOR)
                  then emit_signalTimeTrigger s else s);
            (rest', newPriority2, s2) = setCurrentTime_loop now rest newPriority1 s1
        in ((k, info) # rest', newPriority2, s2))"

definition setCurrentTime :: "int \<Rightarrow> PriorityMuxer \<Rightarrow> PriorityMuxer" where
  "setCurrentTime now s =
     (let newPriority0 =
            (if QMap_contains (activeInputs s) 0 then 0 else LOWEST_PRIORITY);
          (inputs, newPriority1, s1) =
            setCurrentTime_loop now (activeInputs s) newPriority0 s;
          s2 = s1\<lparr>activeInputs := inputs\<rparr>;
          (newPriority, s3) =
            (if \<not> sourceAutoSelectEnabled s2 then
               if QMap_contains (activeInputs s2) (manualSelectedPriority s2)
               then (manualSelectedPriority s2, s2)
               else (newPriority1, snd (setSourceAutoSelectEnabled_with (\<lambda>s. s) True False s2))
             else (newPriority1, s2));
          changed = (currentPriority s3 \<noteq> newPriority);
          s4 = s3\<lparr>currentPriority := newPriority\<rparr>
      in if changed
         then emit prioritiesChanged (emit (visiblePriorityChanged newPriority) s4)
         else s4)"

text \<open>
  A reading of the clock is an argument of the call that takes it. \<open>setInput\<close> and
  \<open>setInputImage\<close> can read the clock twice, for the deadline and again in the sweep,
  and take both readings.
\<close>

definition setSourceAutoSelectEnabled ::
  "bool \<Rightarrow> bool \<Rightarrow> int \<Rightarrow> PriorityMuxer \<Rightarrow> bool \<times> PriorityMuxer" where
  "setSourceAutoSelectEnabled enable update now s =
     setSourceAutoSelectEnabled_with (setCurrentTime now) enable update s"

definition setPriority :: "int \<Rightarrow> int \<Rightarrow> PriorityMuxer \<Rightarrow> bool \<times> PriorityMuxer" where
  "setPriority p now s =
     (let priority = uint8_t p in
      if QMap_contains (activeInputs s) priority then
        let s1 = s\<lparr>manualSelectedPriority := priority\<rparr>
        in (True, snd (setSourceAutoSelectEnabled False True now s1))
      else (False, s))"

datatype error = length_error

text \<open>
  \<open>std::vector::resize(count, value)\<close>; a negative \<open>int\<close> converts to a \<open>size_t\<close>
  above \<open>max_size()\<close>, and \<open>resize\<close> throws.
\<close>

definition vector_resize :: "int \<Rightarrow> 'a \<Rightarrow> 'a list \<Rightarrow> error + 'a list" where
  "vector_resize count v xs =
     (if count < 0 then Inl length_error
      else Inr (take (nat count) xs @ replicate (nat count - length xs) v))"

fun updateLedColorsLength_loop ::
  "int \<Rightarrow> (int \<times> InputInfo) list \<Rightarrow> error + (int \<times> InputInfo) list" where
  "updateLedColorsLength_loop ledCount [] = Inr []"
| "updateLedColorsLength_loop ledCount ((k, info) # rest) =
     (case ledColors info of
        [] \<Rightarrow>
          (case updateLedColorsLength_loop ledCount rest of
             Inl e \<Rightarrow> Inl e
           | Inr rest' \<Rightarrow> Inr ((k, info) # rest'))
      | c # cs \<Rightarrow>
          (case vector_resize ledCount c (c # cs) of
             Inl e \<Rightarrow> Inl e
           | Inr colors \<Rightarrow>
               (case updateLedColorsLength_loop ledCount rest of
                  Inl e \<Rightarrow> Inl e
                | Inr rest' \<Rightarrow> Inr ((k, info\<lparr>ledColors := colors\<rparr>) # rest'))))"

definition updateLedColorsLength :: "int \<Rightarrow> PriorityMuxer \<Rightarrow> error + PriorityMuxer" where
  "updateLedColorsLength ledCount s =
     (case updateLedColorsLength_loop ledCount (activeInputs s) of
        Inl e \<Rightarrow> Inl e
      | Inr inputs \<Rightarrow> Inr (s\<lparr>activeInputs := inputs\<rparr>))"

definition getPriorities :: "PriorityMuxer \<Rightarrow> int list" where
  "getPriorities s = QMap_keys (activeInputs s)"

definition hasPriority :: "int \<Rightarrow> PriorityMuxer \<Rightarrow> bool" where
  "hasPriority p s =
     (if p = LOWEST_PRIORITY then True else QMap_contains (activeInputs s) p)"

definition getInputInfo :: "int \<Rightarrow> PriorityMuxer \<Rightarrow> InputInfo" where
  "getInputInfo p s =
     (case map_of (activeInputs s) p of
        Some info \<Rightarrow> info
      | None \<Rightarrow>
          (case map_of (activeInputs s) LOWEST_PRIORITY of
             Some info \<Rightarrow> info
           | None \<Rightarrow> lowestPriorityInfo s))"

definition registerInput ::
  "int \<Rightarrow> Components \<Rightarrow> string \<Rightarrow> string \<Rightarrow> nat \<Rightarrow> PriorityMuxer \<Rightarrow> PriorityMuxer" where
  "registerInput p component orig ownr smooth s =
     (let newInput = (\<not> QMap_contains (activeInputs s) p);
          input = (case map_of (activeInputs s) p of
                     None \<Rightarrow> InputInfo_default
                   | Some info \<Rightarrow> info);
          input1 = input
            \<lparr>priority := p,
             timeoutTime_ms := (if newInput then - 100 else timeoutTime_ms input),
             componentId := component,
             origin := orig,
             smooth_cfg := smooth,
             owner := ownr\<rparr>;
          s1 = s\<lparr>activeInputs := QMap_insert p input1 (activeInputs s)\<rparr>
      in if newInput
         then emit prioritiesChanged (emit (priorityChanged p True) s1)
         else s1)"

text \<open>
  The part that \<open>setInput\<close> and \<open>setInputImage\<close> share: the final timeout and the
  detection of a change between inactive and active. The sum of the clock and the
  timeout is a sum of \<open>int64_t\<close> values, which wraps around.
\<close>

definition int64_t :: "int \<Rightarrow> int" where
  "int64_t k = (k + 2 ^ 63) mod 2 ^ 64 - 2 ^ 63"

definition final_timeout :: "int \<Rightarrow> int \<Rightarrow> int" where
  "final_timeout now timeout_ms =
     (if timeout_ms > 0 then int64_t (now + timeout_ms) else timeout_ms)"

definition activeChange :: "InputInfo \<Rightarrow> int \<Rightarrow> bool \<times> bool" where
  "activeChange input timeout_ms =
     (if timeoutTime_ms input = - 100 \<and> timeout_ms \<noteq> - 100 then (True, True)
      else if timeout_ms = - 100 \<and> timeoutTime_ms input \<noteq> - 100 then (True, False)
      else (False, True))"

text \<open>
  \<open>now\<close> is the reading of the clock for the final timeout, taken when \<open>timeout_ms\<close>
  is positive; \<open>now'\<close> is the reading that \<open>setCurrentTime\<close> takes when the call
  changes the record between inactive and active.
\<close>

definition setInput ::
  "int \<Rightarrow> ColorRgb list \<Rightarrow> int \<Rightarrow> int \<Rightarrow> int \<Rightarrow> PriorityMuxer \<Rightarrow> bool \<times> PriorityMuxer" where
  "setInput p colors timeout_ms now now' s =
     (case map_of (activeInputs s) p of
        None \<Rightarrow> (False, s)
      | Some input \<Rightarrow>
          let timeout = final_timeout now timeout_ms;
              (change, active) = activeChange input timeout;
              s1 = s\<lparr>activeInputs :=
                      QMap_modify p (\<lambda>i. i\<lparr>timeoutTime_ms := timeout, ledColors := colors\<rparr>)
                        (activeInputs s)\<rparr>
          in if change
             then (True, setCurrentTime now' (emit_activeStateChanged p active s1))
             else (True, s1))"

definition setInputImage ::
  "int \<Rightarrow> Image \<Rightarrow> int \<Rightarrow> int \<Rightarrow> int \<Rightarrow> PriorityMuxer \<Rightarrow> bool \<times> PriorityMuxer" where
  "setInputImage p img timeout_ms now now' s =
     (case map_of (activeInputs s) p of
        None \<Rightarrow> (False, s)
      | Some input \<Rightarrow>
          let timeout = final_timeout now timeout_ms;
              (change, active) = activeChange input timeout;
              s1 = s\<lparr>activeInputs :=
                      QMap_modify p (\<lambda>i. i\<lparr>timeoutTime_ms := timeout, image' := img\<rparr>)
                        (activeInputs s)\<rparr>
          in if change
             then (True, setCurrentTime now' (emit_activeStateChanged p active s1))
             else (True, s1))"

text \<open>
  With the timeout \<open>-100\<close> the clock is read in the sweep only; its reading is \<open>now\<close>.
\<close>

definition setInputInactive :: "int \<Rightarrow> int \<Rightarrow> PriorityMuxer \<Rightarrow> bool \<times> PriorityMuxer" where
  "setInputInactive p now s = setInputImage (uint8_t p) Image_empty (- 100) now now s"

definition clearInput :: "int \<Rightarrow> int \<Rightarrow> PriorityMuxer \<Rightarrow> bool \<times> PriorityMuxer" where
  "clearInput p now s =
     (let priority = uint8_t p in
      if priority < LOWEST_PRIORITY \<and> 0 < fst (QMap_remove priority (activeInputs s)) then
        let s1 = s\<lparr>activeInputs := snd (QMap_remove priority (activeInputs s))\<rparr>;
            s2 = setCurrentTime now s1;
            s3 = emit (priorityChanged priority False) s2
        in (True, emit prioritiesChanged s3)
      else (False, s))"

text \<open>
  The loop of \<open>clearAll\<close> over the keys the table had at its start. The sweeps that
  its calls of \<open>clearInput\<close> run are given the one reading \<open>now\<close>.
\<close>

fun clearAll_loop :: "int \<Rightarrow> int list \<Rightarrow> PriorityMuxer \<Rightarrow> PriorityMuxer" where
  "clearAll_loop now [] s = s"
| "clearAll_loop now (key # keys) s =
     (let info = getInputInfo key s in
      if (componentId info = COMP_COLOR \<or> componentId info = COMP_EFFECT)
           \<and> key < LOWEST_PRIORITY - 1
      then clearAll_loop now keys (snd (clearInput key now s))
      else clearAll_loop now keys s)"

definition clearAll :: "bool \<Rightarrow> int \<Rightarrow> PriorityMuxer \<Rightarrow> PriorityMuxer" where
  "clearAll forceClearAll now s =
     (if forceClearAll then
        s\<lparr>activeInputs := QMap_insert LOWEST_PRIORITY (lowestPriorityInfo s) [],
          currentPriority := LOWEST_PRIORITY\<rparr>
      else clearAll_loop now (QMap_keys (activeInputs s)) s)"

section \<open>Notions used in the statements\<close>

text \<open>The members of the muxer other than the timers and the trace.\<close>

definition same_members :: "PriorityMuxer \<Rightarrow> PriorityMuxer \<Rightarrow> bool" where
  "same_members s s' \<longleftrightarrow>
     currentPriority s' = currentPriority s \<and>
     manualSelectedPriority s' = manualSelectedPriority s \<and>
     activeInputs s' = activeInputs s \<and>
     lowestPriorityInfo s' = lowestPriorityInfo s \<and>
     sourceAutoSelectEnabled s' = sourceAutoSelectEnabled s"

definition is_visiblePriorityChanged :: "Signal \<Rightarrow> bool" where
  "is_visiblePriorityChanged e = (case e of visiblePriorityChanged v \<Rightarrow> True | _ \<Rightarrow> False)"

definition is_priorityChanged :: "Signal \<Rightarrow> bool" where
  "is_priorityChanged e = (case e of priorityChanged p b \<Rightarrow> True | _ \<Rightarrow> False)"

definition kept_active :: "int \<Rightarrow> (int \<times> InputInfo) list \<Rightarrow> int list" where
  "kept_active now m =
     map (\<lambda>(k, i). priority i)
       (filter (\<lambda>(k, i). \<not> expired now i \<and> timeoutTime_ms i > - 100) m)"

definition sweep_newPriority :: "int \<Rightarrow> PriorityMuxer \<Rightarrow> int" where
  "sweep_newPriority now s =
     Min (insert (if QMap_contains (activeInputs s) 0 then 0 else LOWEST_PRIORITY)
           (set (kept_active now (activeInputs s))))"

text \<open>
  The selection as the specification words it: priority \<open>0\<close> when it is present and
  not inactive, otherwise the pinned priority in manual mode when it is present,
  otherwise the smallest priority that is not inactive, and \<open>LOWEST_PRIORITY\<close> when
  there is none.
\<close>

definition active_priorities :: "(int \<times> InputInfo) list \<Rightarrow> int list" where
  "active_priorities m = map fst (filter (\<lambda>(k, i). timeoutTime_ms i > - 100) m)"

definition smallest_active :: "(int \<times> InputInfo) list \<Rightarrow> int" where
  "smallest_active m =
     (if active_priorities m = [] then LOWEST_PRIORITY else Min (set (active_priorities m)))"

definition Selector_claim :: "(int \<times> InputInfo) list \<Rightarrow> bool \<Rightarrow> int \<Rightarrow> int" where
  "Selector_claim m auto manual =
     (if 0 \<in> set (active_priorities m) then 0
      else if \<not> auto \<and> QMap_contains m manual then manual
      else smallest_active m)"

text \<open>The selection with the pinned priority first, which is what the sweep computes.\<close>

definition Selector :: "(int \<times> InputInfo) list \<Rightarrow> bool \<Rightarrow> int \<Rightarrow> int" where
  "Selector m auto manual =
     (if \<not> auto \<and> QMap_contains m manual then manual
      else if 0 \<in> set (active_priorities m) then 0
      else smallest_active m)"

text \<open>
  The table of a muxer whose priorities are in \<open>0..255\<close>: every record carries its own
  key. \<open>zero_settled\<close> says that priority \<open>0\<close> is absent, or is neither inactive nor
  due to expire at \<open>now\<close>.
\<close>

definition valid_priorities :: "(int \<times> InputInfo) list \<Rightarrow> bool" where
  "valid_priorities m \<longleftrightarrow> (\<forall>(k, i) \<in> set m. priority i = k \<and> 0 \<le> k \<and> k \<le> LOWEST_PRIORITY)"

definition zero_settled :: "int \<Rightarrow> (int \<times> InputInfo) list \<Rightarrow> bool" where
  "zero_settled now m =
     (case map_of m 0 of
        None \<Rightarrow> True
      | Some i \<Rightarrow> timeoutTime_ms i > - 100 \<and> \<not> expired now i)"

text \<open>The records that the loop of \<open>clearAll\<close> hands to \<open>clearInput\<close>.\<close>

definition clearable :: "int \<Rightarrow> InputInfo \<Rightarrow> bool" where
  "clearable k info \<longleftrightarrow>
     (componentId info = COMP_COLOR \<or> componentId info = COMP_EFFECT) \<and> k < LOWEST_PRIORITY - 1"

text \<open>One iteration of the loop of \<open>clearAll\<close>, on the table.\<close>

definition clearAll_step :: "int \<Rightarrow> int \<Rightarrow> (int \<times> InputInfo) list \<Rightarrow> (int \<times> InputInfo) list" where
  "clearAll_step now key m =
     (case map_of m key of
        None \<Rightarrow> m
      | Some i \<Rightarrow>
          if clearable key i
          then filter (\<lambda>(k, i). \<not> expired now i) (filter (\<lambda>(k, i). k \<noteq> key) m)
          else m)"

text \<open>
  A buffer \<open>ys\<close> is \<open>xs\<close> resized to \<open>n\<close>: the slots that \<open>xs\<close> has are kept, the new
  ones hold element \<open>0\<close> of \<open>xs\<close>. An entry is resized when only its colours change,
  an empty buffer staying empty.
\<close>

definition resized :: "nat \<Rightarrow> 'a list \<Rightarrow> 'a list \<Rightarrow> bool" where
  "resized n xs ys \<longleftrightarrow>
     length ys = n \<and> (\<forall>j < n. ys ! j = (if j < length xs then xs ! j else xs ! 0))"

definition resized_entry :: "nat \<Rightarrow> int \<times> InputInfo \<Rightarrow> int \<times> InputInfo \<Rightarrow> bool" where
  "resized_entry n e e' \<longleftrightarrow>
     fst e' = fst e
     \<and> snd e' = (snd e)\<lparr>ledColors := ledColors (snd e')\<rparr>
     \<and> (if ledColors (snd e) = [] then ledColors (snd e') = []
        else resized n (ledColors (snd e)) (ledColors (snd e')))"

definition resize_entry :: "nat \<Rightarrow> int \<times> InputInfo \<Rightarrow> int \<times> InputInfo" where
  "resize_entry n e =
     (case ledColors (snd e) of
        [] \<Rightarrow> e
      | c # cs \<Rightarrow> (fst e, (snd e)\<lparr>ledColors := take n (c # cs) @ replicate (n - length (c # cs)) c\<rparr>))"

text \<open>
  A call of \<open>setInput\<close> or \<open>setInputImage\<close> erases the record it has just set when it
  takes the record from inactive to a positive deadline that has passed at the reading
  of the clock in its sweep.
\<close>

definition expires_in_call :: "int \<Rightarrow> int \<Rightarrow> int \<Rightarrow> bool" where
  "expires_in_call old_timeout timeout now' \<longleftrightarrow>
     old_timeout = - 100 \<and> 0 < timeout \<and> timeout \<le> now'"

text \<open>Concrete muxers, each reached from the constructor by public calls.\<close>

definition RED :: ColorRgb where
  "RED = \<lparr>red = 255, green = 0, blue = 0\<rparr>"

definition registered_scenario :: PriorityMuxer where
  "registered_scenario = registerInput 50 COMP_COLOR ''ui'' [] 0 (PriorityMuxer_init 3)"

definition registered_info :: InputInfo where
  "registered_info =
     \<lparr>priority = 50, timeoutTime_ms = - 100, ledColors = [], image' = Image_empty,
      componentId = COMP_COLOR, origin = ''ui'', smooth_cfg = 0, owner = []\<rparr>"

definition zero_timeout_scenario :: PriorityMuxer where
  "zero_timeout_scenario =
     snd (setInput 50 [RED, RED, RED] 0 1000 1000
       (registerInput 50 COMP_COLOR ''ui'' [] 0 (PriorityMuxer_init 3)))"

definition pinned_scenario :: PriorityMuxer where
  "pinned_scenario =
     (let s0 = PriorityMuxer_init 3;
          s1 = registerInput 30 COMP_COLOR ''ui'' [] 0 s0;
          s2 = snd (setInput 30 [RED, RED, RED] (- 1) 0 0 s1);
          s3 = registerInput 60 COMP_COLOR ''ui'' [] 0 s2;
          s4 = snd (setInput 60 [RED, RED, RED] (- 1) 0 0 s3)
      in snd (setPriority 30 0 s4))"

definition pin_over_zero_scenario :: PriorityMuxer where
  "pin_over_zero_scenario =
     (let s0 = PriorityMuxer_init 3;
          s1 = registerInput 0 COMP_BOBLIGHTSERVER ''net'' [] 0 s0;
          s2 = snd (setInputImage 0 Image_empty (- 1) 0 0 s1);
          s3 = registerInput 60 COMP_COLOR ''ui'' [] 0 s2;
          s4 = snd (setInput 60 [RED, RED, RED] (- 1) 0 0 s3)
      in snd (setPriority 60 0 s4))"

definition register_after_wipe_scenario :: PriorityMuxer where
  "register_after_wipe_scenario =
     (let s0 = PriorityMuxer_init 3;
          s1 = registerInput 60 COMP_COLOR ''ui'' [] 0 s0;
          s2 = snd (setPriority 60 0 s1);
          s3 = clearAll True 0 s2
      in registerInput 60 COMP_COLOR ''ui'' [] 0 s3)"

definition expired_grabber_scenario :: PriorityMuxer where
  "expired_grabber_scenario =
     (let s0 = PriorityMuxer_init 3;
          s1 = registerInput 40 COMP_GRABBER ''grabber'' [] 0 s0;
          s2 = snd (setInputImage 40 Image_empty 100 0 0 s1);
          s3 = registerInput 80 COMP_COLOR ''ui'' [] 0 s2
      in snd (setInput 80 [RED, RED, RED] (- 1) 0 0 s3))"

definition visible_scenario :: PriorityMuxer where
  "visible_scenario =
     snd (setInput 100 [RED, RED, RED] (- 1) 0 0
       (registerInput 100 COMP_COLOR ''ui'' [] 0 (PriorityMuxer_init 3)))"

section \<open>The sweep\<close>

lemma map_of_filter_unexpired:
  "map_of m p = Some r \<Longrightarrow> P r \<Longrightarrow> map_of (filter (\<lambda>(k, i). P i) m) p = Some r"
  by (induction m) (auto split: if_splits)

lemma map_of_filter_None:
  "map_of m p = None \<Longrightarrow> map_of (filter Q m) p = None"
  by (induction m) (auto split: if_splits)

lemma map_of_QMap_modify:
  "map_of (QMap_modify p f m) q = (if q = p then map_option f (map_of m p) else map_of m q)"
  by (induction m) (auto simp: QMap_modify_def)

lemma map_of_QMap_insert:
  "map_of (QMap_insert p v m) q = (if q = p then Some v else map_of m q)"
  by (induction m) auto

lemma setCurrentTime_loop_inputs:
  "fst (setCurrentTime_loop now m np s) = filter (\<lambda>(k, i). \<not> expired now i) m"
  by (induction now m np s rule: setCurrentTime_loop.induct) (simp_all add: Let_def case_prod_beta)

lemma emit_signalTimeTrigger_emitted:
  "\<exists>evs. emitted (emit_signalTimeTrigger s) = emitted s @ evs
      \<and> (\<forall>e \<in> set evs. \<not> is_visiblePriorityChanged e)"
  by (simp add: emit_signalTimeTrigger_def timeTrigger_def emit_timeRunner_def emit_def
      is_visiblePriorityChanged_def)

lemma emit_signalTimeTrigger_members: "same_members s (emit_signalTimeTrigger s)"
  by (simp add: emit_signalTimeTrigger_def timeTrigger_def emit_timeRunner_def emit_def
      same_members_def)

lemma same_members_refl: "same_members s s"
  by (simp add: same_members_def)

lemma setCurrentTime_loop_members:
  "same_members s (snd (snd (setCurrentTime_loop now m np s)))"
proof (induction now m np s rule: setCurrentTime_loop.induct)
  case (1 now newPriority s)
  show ?case by (simp add: same_members_refl)
next
  case (2 now k info rest newPriority s)
  show ?case
  proof (cases "expired now info")
    case True
    then show ?thesis
      using 2(1) [OF True refl refl refl]
      by (simp add: Let_def same_members_def emit_def)
  next
    case False
    then show ?thesis
      using 2(2) [OF False refl refl] emit_signalTimeTrigger_members [of s]
      by (simp add: Let_def case_prod_beta same_members_def)
  qed
qed

lemma setCurrentTime_loop_emitted:
  "\<exists>evs. emitted (snd (snd (setCurrentTime_loop now m np s))) = emitted s @ evs
      \<and> (\<forall>e \<in> set evs. \<not> is_visiblePriorityChanged e)"
proof (induction m arbitrary: np s)
  case Nil
  show ?case by simp
next
  case (Cons a m)
  obtain k i where a: "a = (k, i)" by (cases a)
  show ?case
  proof (cases "expired now i")
    case True
    let ?s2 = "emit prioritiesChanged (emit (priorityChanged (uint8_t (priority i)) False) s)"
    obtain evs where "emitted (snd (snd (setCurrentTime_loop now m np ?s2))) = emitted ?s2 @ evs"
      and "\<forall>e \<in> set evs. \<not> is_visiblePriorityChanged e"
      using Cons.IH [where np = np and s = ?s2] by blast
    then show ?thesis using True
      by (auto simp: a Let_def emit_def is_visiblePriorityChanged_def)
  next
    case False
    let ?np = "if timeoutTime_ms i > - 100 then min np (priority i) else np"
    let ?s1 = "if priority i < 254 \<and> timeoutTime_ms i > 0
                     \<and> (componentId i = COMP_EFFECT \<or> componentId i = COMP_COLOR)
                  then emit_signalTimeTrigger s else s"
    obtain evs1 where 1: "emitted ?s1 = emitted s @ evs1"
      and 2: "\<forall>e \<in> set evs1. \<not> is_visiblePriorityChanged e"
    proof (cases "priority i < 254 \<and> timeoutTime_ms i > 0
                     \<and> (componentId i = COMP_EFFECT \<or> componentId i = COMP_COLOR)")
      case True
      then show ?thesis using emit_signalTimeTrigger_emitted [of s] that by auto
    next
      case False
      then show ?thesis using that [of "[]"] by auto
    qed
    obtain evs where 3: "emitted (snd (snd (setCurrentTime_loop now m ?np ?s1))) = emitted ?s1 @ evs"
      and 4: "\<forall>e \<in> set evs. \<not> is_visiblePriorityChanged e"
      using Cons.IH [where np = "?np" and s = "?s1"] by blast
    have "snd (snd (setCurrentTime_loop now (a # m) np s)) = snd (snd (setCurrentTime_loop now m ?np ?s1))"
      using False by (simp add: a Let_def split: prod.splits)
    then show ?thesis using 1 2 3 4 by auto
  qed
qed

lemma setCurrentTime_loop_fields:
  "currentPriority (snd (snd (setCurrentTime_loop now m np s))) = currentPriority s"
  "manualSelectedPriority (snd (snd (setCurrentTime_loop now m np s))) = manualSelectedPriority s"
  "lowestPriorityInfo (snd (snd (setCurrentTime_loop now m np s))) = lowestPriorityInfo s"
  "sourceAutoSelectEnabled (snd (snd (setCurrentTime_loop now m np s))) = sourceAutoSelectEnabled s"
  using setCurrentTime_loop_members [of s now m np] by (simp_all add: same_members_def)

lemma setCurrentTime_loop_newPriority:
  "fst (snd (setCurrentTime_loop now m np s)) = fold min (kept_active now m) np"
proof (induction now m np s rule: setCurrentTime_loop.induct)
  case (1 now newPriority s)
  show ?case by (simp add: kept_active_def)
next
  case (2 now k info rest newPriority s)
  show ?case
  proof (cases "expired now info")
    case True
    then show ?thesis
      using 2(1) [OF True refl refl refl] by (simp add: Let_def kept_active_def)
  next
    case False
    let ?np1 = "if timeoutTime_ms info > - 100 then min newPriority (priority info)
                else newPriority"
    let ?s1 = "if priority info < 254 \<and> timeoutTime_ms info > 0
                  \<and> (componentId info = COMP_EFFECT \<or> componentId info = COMP_COLOR)
               then emit_signalTimeTrigger s else s"
    have "fst (snd (setCurrentTime_loop now ((k, info) # rest) newPriority s))
            = fst (snd (setCurrentTime_loop now rest ?np1 ?s1))"
      using False by (simp add: Let_def case_prod_beta)
    also have "\<dots> = fold min (kept_active now rest) ?np1"
      by (rule 2(2) [OF False refl refl])
    also have "\<dots> = fold min (kept_active now ((k, info) # rest)) newPriority"
      using False by (simp add: kept_active_def min.commute)
    finally show ?thesis .
  qed
qed

lemma fold_min_Min: "fold min xs (a::int) = Min (insert a (set xs))"
  using Min.set_eq_fold [of a xs] by simp

lemma setCurrentTime_activeInputs:
  "activeInputs (setCurrentTime now s) = filter (\<lambda>(k, i). \<not> expired now i) (activeInputs s)"
  by (simp add: setCurrentTime_def Let_def case_prod_beta setSourceAutoSelectEnabled_with_def
      emit_def setCurrentTime_loop_inputs)

lemma setCurrentTime_manualSelectedPriority:
  "manualSelectedPriority (setCurrentTime now s) = manualSelectedPriority s"
  by (simp add: setCurrentTime_def Let_def case_prod_beta setSourceAutoSelectEnabled_with_def
      emit_def setCurrentTime_loop_fields)

lemma setCurrentTime_lowestPriorityInfo:
  "lowestPriorityInfo (setCurrentTime now s) = lowestPriorityInfo s"
  by (simp add: setCurrentTime_def Let_def case_prod_beta setSourceAutoSelectEnabled_with_def
      emit_def setCurrentTime_loop_fields)

lemma setCurrentTime_sourceAutoSelectEnabled:
  "sourceAutoSelectEnabled (setCurrentTime now s) =
     (sourceAutoSelectEnabled s \<or>
      \<not> QMap_contains (activeInputs (setCurrentTime now s)) (manualSelectedPriority s))"
  by (simp add: setCurrentTime_def Let_def case_prod_beta setSourceAutoSelectEnabled_with_def
      emit_def setCurrentTime_loop_fields setCurrentTime_loop_inputs)

lemma setCurrentTime_currentPriority:
  "currentPriority (setCurrentTime now s) =
     (if \<not> sourceAutoSelectEnabled s
         \<and> QMap_contains (activeInputs (setCurrentTime now s)) (manualSelectedPriority s)
      then manualSelectedPriority s
      else sweep_newPriority now s)"
  by (simp add: setCurrentTime_def Let_def case_prod_beta setSourceAutoSelectEnabled_with_def
      emit_def setCurrentTime_loop_fields setCurrentTime_loop_inputs sweep_newPriority_def
      setCurrentTime_loop_newPriority fold_min_Min)

lemma setCurrentTime_emitted:
  "\<exists>evs tl. emitted (setCurrentTime now s) = emitted s @ evs @ tl
      \<and> (\<forall>e \<in> set evs. \<not> is_visiblePriorityChanged e)
      \<and> (\<forall>e \<in> set tl. \<not> is_priorityChanged e)
      \<and> (currentPriority (setCurrentTime now s) \<noteq> currentPriority s \<longrightarrow>
           visiblePriorityChanged (currentPriority (setCurrentTime now s)) \<in> set tl)"
proof -
  let ?np0 = "if QMap_contains (activeInputs s) 0 then 0 else LOWEST_PRIORITY"
  let ?s1 = "snd (snd (setCurrentTime_loop now (activeInputs s) ?np0 s))"
  obtain evs where 1: "emitted ?s1 = emitted s @ evs"
    and 2: "\<forall>e \<in> set evs. \<not> is_visiblePriorityChanged e"
    using setCurrentTime_loop_emitted [of now "activeInputs s" ?np0 s] by blast
  have 3: "currentPriority ?s1 = currentPriority s"
    by (rule setCurrentTime_loop_fields)
  have "\<exists>tl. emitted (setCurrentTime now s) = (emitted s @ evs) @ tl
          \<and> (\<forall>e \<in> set tl. \<not> is_priorityChanged e)
          \<and> (currentPriority (setCurrentTime now s) \<noteq> currentPriority s \<longrightarrow>
           visiblePriorityChanged (currentPriority (setCurrentTime now s)) \<in> set tl)"
    unfolding 1 [symmetric] 3 [symmetric]
    by (simp add: setCurrentTime_def Let_def case_prod_beta setSourceAutoSelectEnabled_with_def
      emit_def is_priorityChanged_def)
  then show ?thesis using 2 by auto
qed

lemma emit_fields:
  "currentPriority (emit e s) = currentPriority s"
  "manualSelectedPriority (emit e s) = manualSelectedPriority s"
  "activeInputs (emit e s) = activeInputs s"
  "lowestPriorityInfo (emit e s) = lowestPriorityInfo s"
  "sourceAutoSelectEnabled (emit e s) = sourceAutoSelectEnabled s"
  "timer_active (emit e s) = timer_active s"
  "blockTimer_active (emit e s) = blockTimer_active s"
  "emitted (emit e s) = emitted s @ [e]"
  by (simp_all add: emit_def)

lemma emit_activeStateChanged_activeInputs:
  "activeInputs (emit_activeStateChanged p a s) = activeInputs s"
  by (simp add: emit_activeStateChanged_def emit_fields)

lemma map_of_filter_key_out:
  "\<forall>(k, i) \<in> set m. k = p \<longrightarrow> \<not> P i \<Longrightarrow> map_of (filter (\<lambda>(k, i). P i) m) p = None"
  by (induction m) auto

lemma QMap_modify_key:
  "\<forall>(k, i) \<in> set (QMap_modify p f m). k = p \<longrightarrow> (\<exists>v. i = f v)"
  by (auto simp: QMap_modify_def split: if_splits)

lemma activeChange_expired:
  "fst (activeChange info timeout) \<and> 0 < timeout \<and> timeout \<le> now'
     \<longleftrightarrow> expires_in_call (timeoutTime_ms info) timeout now'"
  by (auto simp: activeChange_def expires_in_call_def)

text \<open>
  The table after a call that sets the timeout of the record at \<open>p\<close> to \<open>timeout\<close> and
  then sweeps at \<open>now'\<close> if the call changed the activity.
\<close>

lemma set_record:
  assumes i: "map_of m p = Some info"
    and t: "\<And>v. timeoutTime_ms (f v) = timeout"
  shows "map_of (if fst (activeChange info timeout)
                 then filter (\<lambda>(k, i). \<not> expired now' i) (QMap_modify p f m)
                 else QMap_modify p f m) p
           = (if expires_in_call (timeoutTime_ms info) timeout now' then None else Some (f info))"
proof -
  let ?m = "QMap_modify p f m"
  have m: "map_of ?m p = Some (f info)"
    using i by (simp add: map_of_QMap_modify)
  show ?thesis
  proof (cases "fst (activeChange info timeout)")
    case False
    then have "\<not> expires_in_call (timeoutTime_ms info) timeout now'"
      using activeChange_expired [of info timeout now'] by blast
    then show ?thesis using False m by simp
  next
    case True
    show ?thesis
    proof (cases "0 < timeout \<and> timeout \<le> now'")
      case e: True
      then have x: "expires_in_call (timeoutTime_ms info) timeout now'"
        using True activeChange_expired [of info timeout now'] by blast
      have "\<forall>(k, i) \<in> set ?m. k = p \<longrightarrow> \<not> \<not> expired now' i"
        using QMap_modify_key [of p f m] e t by (auto simp: expired_def)
      then have "map_of (filter (\<lambda>(k, i). \<not> expired now' i) ?m) p = None"
        by (rule map_of_filter_key_out)
      then show ?thesis using True x by simp
    next
      case n: False
      then have x: "\<not> expires_in_call (timeoutTime_ms info) timeout now'"
        by (auto simp: expires_in_call_def)
      have "\<not> expired now' (f info)"
        using n t by (auto simp: expired_def)
      then have "map_of (filter (\<lambda>(k, i). \<not> expired now' i) ?m) p = Some (f info)"
        using map_of_filter_unexpired [OF m, of "\<lambda>i. \<not> expired now' i"] by simp
      then show ?thesis using True x by simp
    qed
  qed
qed

lemma setInput_record:
  assumes "map_of (activeInputs s) p = Some info"
  shows "map_of (activeInputs (snd (setInput p colors t now now' s))) p
           = (if expires_in_call (timeoutTime_ms info) (final_timeout now t) now' then None
              else Some (info\<lparr>timeoutTime_ms := final_timeout now t, ledColors := colors\<rparr>))"
proof -
  let ?f = "\<lambda>i. i\<lparr>timeoutTime_ms := final_timeout now t, ledColors := colors\<rparr>"
  have "activeInputs (snd (setInput p colors t now now' s))
          = (if fst (activeChange info (final_timeout now t))
             then filter (\<lambda>(k, i). \<not> expired now' i) (QMap_modify p ?f (activeInputs s))
             else QMap_modify p ?f (activeInputs s))"
    using assms
    by (simp add: setInput_def Let_def case_prod_beta setCurrentTime_activeInputs
        emit_activeStateChanged_activeInputs)
  then show ?thesis
    using set_record [OF assms, of ?f "final_timeout now t" now'] by simp
qed

lemma setInputImage_record:
  assumes "map_of (activeInputs s) p = Some info"
  shows "map_of (activeInputs (snd (setInputImage p img t now now' s))) p
           = (if expires_in_call (timeoutTime_ms info) (final_timeout now t) now' then None
              else Some (info\<lparr>timeoutTime_ms := final_timeout now t, image' := img\<rparr>))"
proof -
  let ?f = "\<lambda>i. i\<lparr>timeoutTime_ms := final_timeout now t, image' := img\<rparr>"
  have "activeInputs (snd (setInputImage p img t now now' s))
          = (if fst (activeChange info (final_timeout now t))
             then filter (\<lambda>(k, i). \<not> expired now' i) (QMap_modify p ?f (activeInputs s))
             else QMap_modify p ?f (activeInputs s))"
    using assms
    by (simp add: setInputImage_def Let_def case_prod_beta setCurrentTime_activeInputs
        emit_activeStateChanged_activeInputs)
  then show ?thesis
    using set_record [OF assms, of ?f "final_timeout now t" now'] by simp
qed

lemma final_timeout_zero: "final_timeout now 0 = 0"
  by (simp add: final_timeout_def)

lemma expires_in_call_zero: "\<not> expires_in_call old 0 now'"
  by (simp add: expires_in_call_def)

lemma sweeps_keep_unexpiring:
  "map_of (activeInputs s) p = Some info \<Longrightarrow> timeoutTime_ms info \<le> 0 \<Longrightarrow>
     map_of (activeInputs (fold setCurrentTime nows s)) p = Some info"
proof (induction nows arbitrary: s)
  case Nil
  then show ?case by simp
next
  case (Cons now nows)
  have "\<not> expired now info" using Cons.prems(2) by (simp add: expired_def)
  then have "map_of (activeInputs (setCurrentTime now s)) p = Some info"
    using map_of_filter_unexpired [OF Cons.prems(1), of "\<lambda>i. \<not> expired now i"]
    by (simp add: setCurrentTime_activeInputs)
  then show ?case using Cons.IH [OF _ Cons.prems(2)] by simp
qed

section \<open>Removal by key and the loop of clearAll\<close>

lemma QMap_remove_count: "0 < fst (QMap_remove k m) \<longleftrightarrow> map_of m k \<noteq> None"
  by (induction m) (auto simp: QMap_remove_def)

lemma QMap_remove_snd: "snd (QMap_remove k m) = filter (\<lambda>(k', v). k' \<noteq> k) m"
  by (simp add: QMap_remove_def)

lemma clearInput_absent:
  "map_of (activeInputs s) (uint8_t p) = None \<Longrightarrow> clearInput p now s = (False, s)"
  by (simp add: clearInput_def Let_def QMap_remove_count)

lemma clearInput_present:
  assumes "uint8_t p < LOWEST_PRIORITY" and "map_of (activeInputs s) (uint8_t p) \<noteq> None"
  shows "activeInputs (snd (clearInput p now s))
           = filter (\<lambda>(k, i). \<not> expired now i) (filter (\<lambda>(k, i). k \<noteq> uint8_t p) (activeInputs s))"
  using assms
  by (simp add: clearInput_def Let_def QMap_remove_count emit_fields setCurrentTime_activeInputs
      QMap_remove_snd)

lemma uint8_t_id: "0 \<le> k \<Longrightarrow> k < 256 \<Longrightarrow> uint8_t k = k"
  by (simp add: uint8_t_def)

lemma clearAll_loop_Cons:
  assumes "0 \<le> key"
  shows "\<exists>s1. clearAll_loop now (key # keys) s = clearAll_loop now keys s1
           \<and> activeInputs s1 = clearAll_step now key (activeInputs s)"
proof (cases "map_of (activeInputs s) key")
  case None
  show ?thesis
  proof (cases "key < 256")
    case True
    then have "clearInput key now s = (False, s)"
      using None assms by (simp add: clearInput_absent uint8_t_id)
    then show ?thesis using None
      by (auto simp: clearAll_step_def Let_def)
  next
    case False
    then show ?thesis using None
      by (auto simp: clearAll_step_def Let_def LOWEST_PRIORITY_def)
  qed
next
  case (Some i)
  then have g: "getInputInfo key s = i"
    by (simp add: getInputInfo_def)
  show ?thesis
  proof (cases "clearable key i")
    case True
    then have k: "key < 254" by (simp add: clearable_def LOWEST_PRIORITY_def)
    then have u: "uint8_t key = key" using assms by (simp add: uint8_t_id)
    have "activeInputs (snd (clearInput key now s))
           = filter (\<lambda>(k, i). \<not> expired now i) (filter (\<lambda>(k, i). k \<noteq> key) (activeInputs s))"
      using clearInput_present [of key s now] u k Some by (simp add: LOWEST_PRIORITY_def)
    then show ?thesis using True Some g
      by (auto simp: clearAll_step_def Let_def clearable_def)
  next
    case False
    then show ?thesis using Some g
      by (auto simp: clearAll_step_def Let_def clearable_def)
  qed
qed

lemma clearAll_step_swept:
  assumes d: "distinct (map fst m)" and u: "\<forall>(k, i) \<in> set m. \<not> expired now i"
  shows "clearAll_step now key m = filter (\<lambda>(k, i). \<not> (k = key \<and> clearable k i)) m"
proof (cases "map_of m key")
  case None
  then have "\<forall>(k, i) \<in> set m. k \<noteq> key"
    by (auto simp: map_of_eq_None_iff image_iff)
  then have "filter (\<lambda>(k, i). \<not> (k = key \<and> clearable k i)) m = m"
    by (auto simp: filter_id_conv)
  then show ?thesis using None by (simp add: clearAll_step_def)
next
  case (Some i0)
  have e: "\<And>k i. (k, i) \<in> set m \<Longrightarrow> k = key \<Longrightarrow> i = i0"
    using Some d by (auto simp: map_of_eq_Some_iff)
  show ?thesis
  proof (cases "clearable key i0")
    case True
    have "filter (\<lambda>(k, i). \<not> expired now i) (filter (\<lambda>(k, i). k \<noteq> key) m)
            = filter (\<lambda>(k, i). k \<noteq> key) m"
      using u by (auto intro!: filter_cong)
    also have "\<dots> = filter (\<lambda>(k, i). \<not> (k = key \<and> clearable k i)) m"
      using True e by (auto intro!: filter_cong)
    finally show ?thesis using Some True by (simp add: clearAll_step_def)
  next
    case False
    have "filter (\<lambda>(k, i). \<not> (k = key \<and> clearable k i)) m = m"
      using False e by (auto simp: filter_id_conv)
    then show ?thesis using Some False by (simp add: clearAll_step_def)
  qed
qed

lemma distinct_fst_filter: "distinct (map fst m) \<Longrightarrow> distinct (map fst (filter P m))"
  by (simp add: distinct_map_filter)

lemma clearAll_loop_swept:
  assumes "distinct (map fst (activeInputs s))"
    and "\<forall>(k, i) \<in> set (activeInputs s). \<not> expired now i"
    and "\<forall>k \<in> set keys. 0 \<le> k"
  shows "activeInputs (clearAll_loop now keys s)
           = filter (\<lambda>(k, i). \<not> (k \<in> set keys \<and> clearable k i)) (activeInputs s)"
  using assms
proof (induction keys arbitrary: s)
  case Nil
  then show ?case by simp
next
  case (Cons key keys)
  obtain s1 where 1: "clearAll_loop now (key # keys) s = clearAll_loop now keys s1"
    and 2: "activeInputs s1 = clearAll_step now key (activeInputs s)"
    using clearAll_loop_Cons [of key now keys s] Cons.prems(3) by auto
  have 3: "activeInputs s1 = filter (\<lambda>(k, i). \<not> (k = key \<and> clearable k i)) (activeInputs s)"
    using 2 clearAll_step_swept [OF Cons.prems(1) Cons.prems(2)] by simp
  have "activeInputs (clearAll_loop now keys s1)
           = filter (\<lambda>(k, i). \<not> (k \<in> set keys \<and> clearable k i)) (activeInputs s1)"
  proof (rule Cons.IH)
    show "distinct (map fst (activeInputs s1))"
      unfolding 3 using Cons.prems(1) by (rule distinct_fst_filter)
    show "\<forall>(k, i) \<in> set (activeInputs s1). \<not> expired now i"
      unfolding 3 using Cons.prems(2) by auto
    show "\<forall>k \<in> set keys. 0 \<le> k"
      using Cons.prems(3) by simp
  qed
  then show ?case
    unfolding 1 3 by (auto simp: filter_filter intro!: filter_cong)
qed

lemma clearAll_loop_activeInputs:
  assumes "distinct (map fst (activeInputs s))"
    and "\<forall>k \<in> set keys. 0 \<le> k"
  shows "activeInputs (clearAll_loop now keys s)
           = (if \<exists>(k, i) \<in> set (activeInputs s). k \<in> set keys \<and> clearable k i
              then filter (\<lambda>(k, i). \<not> (k \<in> set keys \<and> clearable k i) \<and> \<not> expired now i)
                     (activeInputs s)
              else activeInputs s)"
  using assms
proof (induction keys arbitrary: s)
  case Nil
  then show ?case by simp
next
  case (Cons key keys)
  let ?m = "activeInputs s"
  obtain s1 where 1: "clearAll_loop now (key # keys) s = clearAll_loop now keys s1"
    and 2: "activeInputs s1 = clearAll_step now key ?m"
    using clearAll_loop_Cons [of key now keys s] Cons.prems(2) by auto
  have ks: "\<forall>k \<in> set keys. 0 \<le> k" using Cons.prems(2) by simp
  show ?case
  proof (cases "\<exists>i. map_of ?m key = Some i \<and> clearable key i")
    case True
    then obtain i0 where i0: "map_of ?m key = Some i0" and c: "clearable key i0" by blast
    have e: "\<And>k i. (k, i) \<in> set ?m \<Longrightarrow> k = key \<Longrightarrow> i = i0"
      using i0 Cons.prems(1) by (auto simp: map_of_eq_Some_iff)
    have m: "(key, i0) \<in> set ?m" using i0 by (rule map_of_SomeD)
    have 3: "activeInputs s1
               = filter (\<lambda>(k, i). \<not> expired now i) (filter (\<lambda>(k, i). k \<noteq> key) ?m)"
      using 2 i0 c by (simp add: clearAll_step_def)
    have "activeInputs (clearAll_loop now keys s1)
           = filter (\<lambda>(k, i). \<not> (k \<in> set keys \<and> clearable k i)) (activeInputs s1)"
    proof (rule clearAll_loop_swept)
      show "distinct (map fst (activeInputs s1))"
        unfolding 3 using Cons.prems(1) by (simp add: distinct_map_filter)
      show "\<forall>(k, i) \<in> set (activeInputs s1). \<not> expired now i"
        unfolding 3 by auto
      show "\<forall>k \<in> set keys. 0 \<le> k" by (rule ks)
    qed
    also have "\<dots> = filter (\<lambda>(k, i). \<not> (k \<in> set (key # keys) \<and> clearable k i) \<and> \<not> expired now i) ?m"
      unfolding 3 using e c by (auto simp: filter_filter intro!: filter_cong)
    finally show ?thesis
      unfolding 1 using m c by auto
  next
    case False
    then have n: "\<And>i. (key, i) \<in> set ?m \<Longrightarrow> \<not> clearable key i"
      using Cons.prems(1) by (auto simp: map_of_eq_Some_iff)
    have 3: "activeInputs s1 = ?m"
      using 2 False by (auto simp: clearAll_step_def split: option.splits)
    have "activeInputs (clearAll_loop now keys s1)
           = (if \<exists>(k, i) \<in> set (activeInputs s1). k \<in> set keys \<and> clearable k i
              then filter (\<lambda>(k, i). \<not> (k \<in> set keys \<and> clearable k i) \<and> \<not> expired now i)
                     (activeInputs s1)
              else activeInputs s1)"
      using Cons.IH [of s1] Cons.prems(1) ks 3 by simp
    also have "\<dots> = (if \<exists>(k, i) \<in> set ?m. k \<in> set (key # keys) \<and> clearable k i
              then filter (\<lambda>(k, i). \<not> (k \<in> set (key # keys) \<and> clearable k i) \<and> \<not> expired now i) ?m
              else ?m)"
    proof -
      have a: "(\<exists>(k, i) \<in> set ?m. k \<in> set keys \<and> clearable k i)
             \<longleftrightarrow> (\<exists>(k, i) \<in> set ?m. k \<in> set (key # keys) \<and> clearable k i)"
        using n by auto
      have b: "filter (\<lambda>(k, i). \<not> (k \<in> set keys \<and> clearable k i) \<and> \<not> expired now i) ?m
             = filter (\<lambda>(k, i). \<not> (k \<in> set (key # keys) \<and> clearable k i) \<and> \<not> expired now i) ?m"
        using n by (auto intro!: filter_cong)
      show ?thesis unfolding 3 a b ..
    qed
    finally show ?thesis unfolding 1 .
  qed
qed

section \<open>The priority that the sweep selects\<close>

lemma kept_active_valid:
  assumes "valid_priorities m"
  shows "set (kept_active now m) = set (active_priorities (filter (\<lambda>(k, i). \<not> expired now i) m))"
  using assms
  by (force simp: valid_priorities_def kept_active_def active_priorities_def image_iff)

lemma active_priorities_bounds:
  assumes "valid_priorities m" and "k \<in> set (active_priorities (filter P m))"
  shows "0 \<le> k \<and> k \<le> LOWEST_PRIORITY \<and> QMap_contains m k"
  using assms
  by (force simp: valid_priorities_def active_priorities_def QMap_contains_def
      map_of_eq_None_iff image_iff)

lemma sweep_newPriority_Selector:
  assumes v: "valid_priorities (activeInputs s)" and z: "zero_settled now (activeInputs s)"
  shows "sweep_newPriority now s
           = Selector (filter (\<lambda>(k, i). \<not> expired now i) (activeInputs s)) True manual"
proof -
  let ?m = "activeInputs s"
  let ?m' = "filter (\<lambda>(k, i). \<not> expired now i) ?m"
  let ?A = "set (active_priorities ?m')"
  have A: "set (kept_active now ?m) = ?A"
    using v by (rule kept_active_valid)
  have b: "\<And>k. k \<in> ?A \<Longrightarrow> 0 \<le> k \<and> k \<le> LOWEST_PRIORITY \<and> QMap_contains ?m k"
    using active_priorities_bounds [OF v] by blast
  show ?thesis
  proof (cases "QMap_contains ?m 0")
    case True
    then obtain i where i: "map_of ?m 0 = Some i"
      by (auto simp: QMap_contains_def)
    then have "timeoutTime_ms i > - 100" and "\<not> expired now i"
      using z by (simp_all add: zero_settled_def)
    moreover have "(0, i) \<in> set ?m" using i by (rule map_of_SomeD)
    ultimately have 0: "0 \<in> ?A"
      by (force simp: active_priorities_def image_iff)
    have "Min (insert 0 ?A) = 0"
      using b by (intro Min_eqI) auto
    then show ?thesis
      using True 0 by (simp add: sweep_newPriority_def A Selector_def)
  next
    case False
    then have 0: "0 \<notin> ?A" using b by blast
    show ?thesis
    proof (cases "active_priorities ?m' = []")
      case True
      then show ?thesis
        using False 0 by (simp add: sweep_newPriority_def A Selector_def smallest_active_def)
    next
      case ne: False
      then have n: "?A \<noteq> {}" by simp
      have "Min ?A \<in> ?A" using n by (intro Min_in) auto
      then have "Min ?A \<le> LOWEST_PRIORITY" using b by blast
      moreover have "Min (insert LOWEST_PRIORITY ?A) = min LOWEST_PRIORITY (Min ?A)"
        using n by (intro Min_insert) auto
      ultimately have "Min (insert LOWEST_PRIORITY ?A) = Min ?A"
        by (simp only: min_absorb2)
      then show ?thesis
        using False 0 ne by (simp add: sweep_newPriority_def A Selector_def smallest_active_def)
    qed
  qed
qed

section \<open>Resizing the colour buffers\<close>

lemma updateLedColorsLength_loop_map:
  "0 \<le> ledCount \<Longrightarrow>
     updateLedColorsLength_loop ledCount m = Inr (map (resize_entry (nat ledCount)) m)"
  by (induction ledCount m rule: updateLedColorsLength_loop.induct)
     (auto simp: vector_resize_def resize_entry_def split: list.splits)

lemma resized_take_replicate:
  "xs \<noteq> [] \<Longrightarrow> resized n xs (take n xs @ replicate (n - length xs) (xs ! 0))"
  by (auto simp: resized_def nth_append)

lemma resized_entry_resize_entry: "resized_entry n e (resize_entry n e)"
proof (cases "ledColors (snd e)")
  case Nil
  then show ?thesis by (simp add: resized_entry_def resize_entry_def)
next
  case (Cons c cs)
  then show ?thesis
    using resized_take_replicate [of "c # cs" n]
    by (simp add: resized_entry_def resize_entry_def)
qed

section \<open>The published priority\<close>

text \<open>
  Claim C1, as amended. After a sweep the published \<open>currentPriority\<close> is the selection
  with the pinned priority first: the pinned manual priority when manual mode is
  engaged and that priority is present; otherwise priority \<open>0\<close> when it is present and
  not inactive; otherwise the smallest priority whose record has a timeout above
  \<open>-100\<close>, and \<open>LOWEST_PRIORITY\<close> when there is none. This holds for a table with
  priorities in \<open>0..255\<close> in which priority \<open>0\<close> is absent, or is neither inactive
  nor due to expire in this sweep.
\<close>

theorem C1_sweep_selector:
  assumes "valid_priorities (activeInputs s)" and "zero_settled now (activeInputs s)"
  shows "currentPriority (setCurrentTime now s)
           = Selector (activeInputs (setCurrentTime now s))
               (sourceAutoSelectEnabled (setCurrentTime now s))
               (manualSelectedPriority (setCurrentTime now s))"
proof (cases "\<not> sourceAutoSelectEnabled s
      \<and> QMap_contains (activeInputs (setCurrentTime now s)) (manualSelectedPriority s)")
  case True
  then have c: "QMap_contains (activeInputs (setCurrentTime now s)) (manualSelectedPriority s)"
    by simp
  have a: "\<not> sourceAutoSelectEnabled (setCurrentTime now s)"
    using True setCurrentTime_sourceAutoSelectEnabled [of now s] by blast
  have "currentPriority (setCurrentTime now s) = manualSelectedPriority s"
    using True setCurrentTime_currentPriority [of now s] by simp
  then show ?thesis
    using a c by (simp add: setCurrentTime_manualSelectedPriority Selector_def)
next
  case False
  then have a: "sourceAutoSelectEnabled (setCurrentTime now s)"
    using setCurrentTime_sourceAutoSelectEnabled [of now s] by blast
  have "currentPriority (setCurrentTime now s) = sweep_newPriority now s"
    using False by (auto simp: setCurrentTime_currentPriority)
  also have "\<dots> = Selector (activeInputs (setCurrentTime now s)) True
                      (manualSelectedPriority (setCurrentTime now s))"
    using sweep_newPriority_Selector [OF assms] by (simp add: setCurrentTime_activeInputs)
  finally show ?thesis using a by simp
qed

theorem C1_sweep_selector_witness:
  "valid_priorities (activeInputs pin_over_zero_scenario)
   \<and> zero_settled 250 (activeInputs pin_over_zero_scenario)
   \<and> currentPriority (setCurrentTime 250 pin_over_zero_scenario)
       = Selector (activeInputs (setCurrentTime 250 pin_over_zero_scenario))
           (sourceAutoSelectEnabled (setCurrentTime 250 pin_over_zero_scenario))
           (manualSelectedPriority (setCurrentTime 250 pin_over_zero_scenario))"
proof -
  have v: "valid_priorities (activeInputs pin_over_zero_scenario)"
    by code_simp
  have z: "zero_settled 250 (activeInputs pin_over_zero_scenario)"
    by code_simp
  show ?thesis
    using v z C1_sweep_selector [OF v z] by simp
qed

text \<open>
  The claim as first written puts priority \<open>0\<close> before the pinned priority and speaks
  of every mutating call. With \<open>0\<close> and \<open>60\<close> active and \<open>60\<close> pinned, a sweep
  publishes \<open>60\<close>. And \<open>registerInput\<close> runs no sweep: after a forced \<open>clearAll\<close> in
  manual mode, registering the pinned priority again leaves \<open>255\<close> published.
\<close>

theorem C1_counterexample:
  "currentPriority (setCurrentTime 0 pin_over_zero_scenario) = 60
   \<and> Selector_claim (activeInputs (setCurrentTime 0 pin_over_zero_scenario))
       (sourceAutoSelectEnabled (setCurrentTime 0 pin_over_zero_scenario))
       (manualSelectedPriority (setCurrentTime 0 pin_over_zero_scenario)) = 0
   \<and> currentPriority register_after_wipe_scenario = 255
   \<and> Selector_claim (activeInputs register_after_wipe_scenario)
       (sourceAutoSelectEnabled register_after_wipe_scenario)
       (manualSelectedPriority register_after_wipe_scenario) = 60"
  by code_simp

section \<open>The entry of the lowest priority\<close>

text \<open>
  Claim C2. The key \<open>LOWEST_PRIORITY\<close> is to be present after every sequence of public
  calls. \<open>clearInput\<close> refuses it and a forced \<open>clearAll\<close> inserts it again, but the
  expiry in the sweep has no such guard: \<open>setInput\<close> on priority \<open>255\<close> with the
  timeout \<open>10\<close> at time \<open>1000\<close> gives the entry the deadline \<open>1010\<close>, and the sweep
  at time \<open>2000\<close> erases it.
\<close>

theorem C2_LOWEST_expires:
  "map_of (activeInputs (setCurrentTime 2000
      (snd (setInput LOWEST_PRIORITY [BLACK, BLACK, BLACK] 10 1000 1000 (PriorityMuxer_init 3)))))
     LOWEST_PRIORITY = None"
  by code_simp

section \<open>A timeout of zero\<close>

text \<open>
  Claim C3, as amended. For a registered priority, \<open>setInput\<close> or \<open>setInputImage\<close>
  with the timeout \<open>0\<close> stores \<open>0\<close> as it is. The record is then neither inactive nor
  timed: after any number of sweeps, at any times, it is still in the table with the
  timeout \<open>0\<close> and the payload of the call.
\<close>

theorem C3_zero_timeout_stays:
  assumes "map_of (activeInputs s) p = Some info"
  shows "map_of (activeInputs (fold setCurrentTime nows (snd (setInput p colors 0 now now' s)))) p
           = Some (info\<lparr>timeoutTime_ms := 0, ledColors := colors\<rparr>)
       \<and> map_of (activeInputs (fold setCurrentTime nows (snd (setInputImage p img 0 now now' s)))) p
           = Some (info\<lparr>timeoutTime_ms := 0, image' := img\<rparr>)"
proof -
  have c: "map_of (activeInputs (snd (setInput p colors 0 now now' s))) p
             = Some (info\<lparr>timeoutTime_ms := 0, ledColors := colors\<rparr>)"
    using setInput_record [OF assms, of colors 0 now now']
    by (simp add: final_timeout_zero expires_in_call_zero)
  have i: "map_of (activeInputs (snd (setInputImage p img 0 now now' s))) p
             = Some (info\<lparr>timeoutTime_ms := 0, image' := img\<rparr>)"
    using setInputImage_record [OF assms, of img 0 now now']
    by (simp add: final_timeout_zero expires_in_call_zero)
  show ?thesis
    using sweeps_keep_unexpiring [OF c, of nows] sweeps_keep_unexpiring [OF i, of nows]
    by simp
qed

theorem C3_zero_timeout_stays_witness:
  "map_of (activeInputs registered_scenario) 50 = Some registered_info
   \<and> map_of (activeInputs (fold setCurrentTime [2000, 3000]
        (snd (setInput 50 [RED] 0 1000 1001 registered_scenario)))) 50
      = Some (registered_info\<lparr>timeoutTime_ms := 0, ledColors := [RED]\<rparr>)"
proof -
  have h: "map_of (activeInputs registered_scenario) 50 = Some registered_info"
    by code_simp
  show ?thesis
    using h C3_zero_timeout_stays [OF h, of "[2000, 3000]" "[RED]" 1000 1001]
    by simp
qed

text \<open>
  The claim as first written has the record removed by the next sweep. Priority \<open>50\<close>,
  set with the timeout \<open>0\<close> at time \<open>1000\<close>, is still there after the sweep at time
  \<open>2000\<close>, and no \<open>priorityChanged(50, false)\<close> has been emitted.
\<close>

theorem C3_counterexample:
  "map_of (activeInputs (setCurrentTime 2000 zero_timeout_scenario)) 50 \<noteq> None
   \<and> priorityChanged 50 False \<notin> set (emitted (setCurrentTime 2000 zero_timeout_scenario))"
  by code_simp

section \<open>The length of the colour buffers\<close>

text \<open>
  Claim C4, as amended. For a count \<open>n \<ge> 0\<close>, \<open>updateLedColorsLength\<close> returns
  normally, changes nothing but the colour buffers, resizes every buffer that is not
  empty to the length \<open>n\<close>, the new slots holding its element \<open>0\<close>, and leaves an
  empty buffer empty.
\<close>

theorem C4_updateLedColorsLength:
  assumes "0 \<le> ledCount"
  shows "\<exists>m. updateLedColorsLength ledCount s = Inr (s\<lparr>activeInputs := m\<rparr>)
           \<and> list_all2 (resized_entry (nat ledCount)) (activeInputs s) m"
proof -
  have "list_all2 (resized_entry (nat ledCount)) (activeInputs s)
          (map (resize_entry (nat ledCount)) (activeInputs s))"
    by (simp add: list_all2_map2 list_all2_same resized_entry_resize_entry)
  moreover have "updateLedColorsLength ledCount s
          = Inr (s\<lparr>activeInputs := map (resize_entry (nat ledCount)) (activeInputs s)\<rparr>)"
    using assms by (simp add: updateLedColorsLength_def updateLedColorsLength_loop_map)
  ultimately show ?thesis by blast
qed

theorem C4_updateLedColorsLength_witness:
  "(0::int) \<le> 5
   \<and> (\<exists>m. updateLedColorsLength 5 registered_scenario = Inr (registered_scenario\<lparr>activeInputs := m\<rparr>)
           \<and> list_all2 (resized_entry (nat 5)) (activeInputs registered_scenario) m)"
proof -
  have h: "(0::int) \<le> 5" by simp
  show ?thesis
    using h C4_updateLedColorsLength [OF h, of registered_scenario] by blast
qed

text \<open>
  The claim as first written resizes every buffer, an empty one growing with black.
  The buffer of a priority that was registered and never set is empty, and is still
  empty after \<open>updateLedColorsLength(5)\<close>.
\<close>

theorem C4_counterexample:
  "map_option ledColors (map_of (activeInputs registered_scenario) 50) = Some []
   \<and> \<not> isl (updateLedColorsLength 5 registered_scenario)
   \<and> map_option ledColors
       (map_of (activeInputs (projr (updateLedColorsLength 5 registered_scenario))) 50) = Some []"
  by code_simp

section \<open>Calls on a priority that is not registered\<close>

text \<open>
  Claim C5. For a priority that is not in the table, \<open>setInput\<close> and \<open>setInputImage\<close>
  return false and leave the muxer as it was: the table, the current and the manual
  priority, the auto-select flag, the timers and the trace of emitted signals are all
  members of the state that is returned unchanged, so no signal is emitted.
\<close>

theorem C5_unregistered:
  assumes "\<not> QMap_contains (activeInputs s) p"
  shows "setInput p colors timeout_ms now now' s = (False, s)
       \<and> setInputImage p img timeout_ms now now' s = (False, s)"
  using assms by (simp add: setInput_def setInputImage_def QMap_contains_def)

theorem C5_unregistered_witness:
  "\<not> QMap_contains (activeInputs (PriorityMuxer_init 3)) 50
   \<and> setInput 50 [BLACK] 1000 7 8 (PriorityMuxer_init 3) = (False, PriorityMuxer_init 3)
   \<and> setInputImage 50 Image_empty 1000 7 8 (PriorityMuxer_init 3) = (False, PriorityMuxer_init 3)"
proof -
  have h: "\<not> QMap_contains (activeInputs (PriorityMuxer_init 3)) 50"
    by code_simp
  show ?thesis
    using h C5_unregistered [OF h, of "[BLACK]" 1000 7 8 Image_empty] by simp
qed

section \<open>Registration\<close>

text \<open>
  Claim C6. When the priority is absent, \<open>registerInput\<close> inserts a record with the
  timeout \<open>-100\<close>, the given component, origin, owner and smoothing configuration,
  and emits \<open>priorityChanged(p, true)\<close> followed by \<open>prioritiesChanged\<close>. When the
  priority is present, it overwrites the priority, component, origin, owner and
  smoothing configuration of the record, keeps its timeout and payloads, and emits
  nothing. In both cases the other entries, the current and the manual priority and
  the auto-select flag stay as they were.
\<close>

theorem C6_registerInput:
  "(map_of (activeInputs s) p = None \<longrightarrow>
      map_of (activeInputs (registerInput p c orig ownr smooth s)) p
        = Some \<lparr>priority = p, timeoutTime_ms = - 100, ledColors = [], image' = Image_empty,
                componentId = c, origin = orig, smooth_cfg = smooth, owner = ownr\<rparr>
      \<and> emitted (registerInput p c orig ownr smooth s)
        = emitted s @ [priorityChanged p True, prioritiesChanged])
   \<and> (\<forall>info. map_of (activeInputs s) p = Some info \<longrightarrow>
      map_of (activeInputs (registerInput p c orig ownr smooth s)) p
        = Some (info\<lparr>priority := p, componentId := c, origin := orig,
                     smooth_cfg := smooth, owner := ownr\<rparr>)
      \<and> map_option timeoutTime_ms (map_of (activeInputs (registerInput p c orig ownr smooth s)) p)
        = Some (timeoutTime_ms info)
      \<and> emitted (registerInput p c orig ownr smooth s) = emitted s)
   \<and> (\<forall>q. q \<noteq> p \<longrightarrow>
        map_of (activeInputs (registerInput p c orig ownr smooth s)) q = map_of (activeInputs s) q)
   \<and> currentPriority (registerInput p c orig ownr smooth s) = currentPriority s
   \<and> manualSelectedPriority (registerInput p c orig ownr smooth s) = manualSelectedPriority s
   \<and> sourceAutoSelectEnabled (registerInput p c orig ownr smooth s) = sourceAutoSelectEnabled s"
  by (auto simp: registerInput_def Let_def QMap_contains_def map_of_QMap_insert emit_fields
      InputInfo_default_def)

theorem C6_registerInput_witness:
  "map_of (activeInputs (PriorityMuxer_init 3)) 100 = None
   \<and> map_option timeoutTime_ms
       (map_of (activeInputs (registerInput 100 COMP_EFFECT ''fx'' ''rainbow'' 1 (PriorityMuxer_init 3))) 100)
      = Some (- 100)
   \<and> emitted (registerInput 100 COMP_EFFECT ''fx'' ''rainbow'' 1 (PriorityMuxer_init 3))
      = [priorityChanged 100 True, prioritiesChanged]
   \<and> map_of (activeInputs (PriorityMuxer_init 3)) 255 = Some (lowestPriorityInfo (PriorityMuxer_init 3))
   \<and> map_option timeoutTime_ms
       (map_of (activeInputs (registerInput 255 COMP_EFFECT ''fx'' ''rainbow'' 1 (PriorityMuxer_init 3))) 255)
      = Some (- 1)
   \<and> emitted (registerInput 255 COMP_EFFECT ''fx'' ''rainbow'' 1 (PriorityMuxer_init 3)) = []"
proof -
  have a: "map_of (activeInputs (PriorityMuxer_init 3)) 100 = None"
    by code_simp
  have b: "map_of (activeInputs (PriorityMuxer_init 3)) 255 = Some (lowestPriorityInfo (PriorityMuxer_init 3))"
    by code_simp
  have t: "timeoutTime_ms (lowestPriorityInfo (PriorityMuxer_init 3)) = - 1"
    by code_simp
  have e: "emitted (PriorityMuxer_init 3) = []"
    by code_simp
  show ?thesis
    using a b t e
      C6_registerInput [of "PriorityMuxer_init 3" 100 COMP_EFFECT "''fx''" "''rainbow''" 1]
      C6_registerInput [of "PriorityMuxer_init 3" 255 COMP_EFFECT "''fx''" "''rainbow''" 1]
    by simp
qed

section \<open>Pinning a priority\<close>

text \<open>
  Claim C7. \<open>setPriority\<close> on a present priority is to pin it and to publish it before
  it returns, also when auto-select was disabled before the call. With \<open>30\<close> and
  \<open>60\<close> active and \<open>30\<close> pinned, \<open>setPriority(60)\<close> returns true and changes the
  pin to \<open>60\<close>, but nothing else: \<open>setSourceAutoSelectEnabled(false)\<close> finds the flag
  already false and runs no sweep, so that \<open>30\<close> stays published until the next sweep
  publishes \<open>60\<close>.
\<close>

theorem C7_setPriority_stale:
  "\<not> sourceAutoSelectEnabled pinned_scenario
   \<and> currentPriority pinned_scenario = 30
   \<and> QMap_contains (activeInputs pinned_scenario) 60
   \<and> setPriority 60 0 pinned_scenario
       = (True, pinned_scenario\<lparr>manualSelectedPriority := 60\<rparr>)
   \<and> currentPriority (snd (setPriority 60 0 pinned_scenario)) = 30
   \<and> currentPriority (setCurrentTime 0 (snd (setPriority 60 0 pinned_scenario))) = 60"
  by code_simp

section \<open>The soft clearAll\<close>

text \<open>
  Claim C8, as amended. For a table with distinct priorities, none negative: when no
  record has the component Color or Effect and a priority below \<open>254\<close>,
  \<open>clearAll(false)\<close> leaves the table as it is. Otherwise it removes exactly those
  records and, through the sweep that \<open>clearInput\<close> runs, the records whose positive
  deadline has passed; every other record stays, the one at priority \<open>254\<close> included.
\<close>

theorem C8_clearAll_soft:
  assumes "distinct (map fst (activeInputs s))"
    and "\<forall>(k, i) \<in> set (activeInputs s). 0 \<le> k"
  shows "activeInputs (clearAll False now s)
           = (if \<exists>(k, i) \<in> set (activeInputs s). clearable k i
              then filter (\<lambda>(k, i). \<not> clearable k i \<and> \<not> expired now i) (activeInputs s)
              else activeInputs s)"
proof -
  let ?m = "activeInputs s"
  have k: "\<forall>k \<in> set (QMap_keys ?m). 0 \<le> k"
    using assms(2) by (auto simp: QMap_keys_def)
  have i: "\<And>k i. (k, i) \<in> set ?m \<Longrightarrow> k \<in> set (QMap_keys ?m)"
    by (force simp: QMap_keys_def)
  have a: "(\<exists>(k, i) \<in> set ?m. k \<in> set (QMap_keys ?m) \<and> clearable k i)
             \<longleftrightarrow> (\<exists>(k, i) \<in> set ?m. clearable k i)"
    using i by auto
  have b: "filter (\<lambda>(k, i). \<not> (k \<in> set (QMap_keys ?m) \<and> clearable k i) \<and> \<not> expired now i) ?m
             = filter (\<lambda>(k, i). \<not> clearable k i \<and> \<not> expired now i) ?m"
    using i by (auto intro!: filter_cong)
  show ?thesis
    using clearAll_loop_activeInputs [OF assms(1) k, of now]
    unfolding a b by (simp add: clearAll_def)
qed

theorem C8_clearAll_soft_witness:
  "distinct (map fst (activeInputs expired_grabber_scenario))
   \<and> list_all (\<lambda>(k, i). 0 \<le> k) (activeInputs expired_grabber_scenario)
   \<and> activeInputs (clearAll False 200 expired_grabber_scenario)
       = (if \<exists>(k, i) \<in> set (activeInputs expired_grabber_scenario). clearable k i
          then filter (\<lambda>(k, i). \<not> clearable k i \<and> \<not> expired 200 i)
                 (activeInputs expired_grabber_scenario)
          else activeInputs expired_grabber_scenario)
   \<and> QMap_keys (activeInputs (clearAll False 200 expired_grabber_scenario)) = [255]"
proof -
  have d: "distinct (map fst (activeInputs expired_grabber_scenario))"
    by code_simp
  have l: "list_all (\<lambda>(k, i). 0 \<le> k) (activeInputs expired_grabber_scenario)"
    by code_simp
  have n: "\<forall>(k, i) \<in> set (activeInputs expired_grabber_scenario). 0 \<le> k"
    using l by (simp add: list_all_iff)
  have k: "QMap_keys (activeInputs (clearAll False 200 expired_grabber_scenario)) = [255]"
    by code_simp
  show ?thesis
    using d l k C8_clearAll_soft [OF d n, of 200] by simp
qed

text \<open>
  The claim as first written lets every other record survive. A grabber at priority
  \<open>40\<close> whose deadline \<open>100\<close> has passed is gone after \<open>clearAll(false)\<close> at time
  \<open>200\<close>, which clears the colour at priority \<open>80\<close> and sweeps.
\<close>

theorem C8_counterexample:
  "map_option componentId (map_of (activeInputs expired_grabber_scenario) 40) = Some COMP_GRABBER
   \<and> map_of (activeInputs (clearAll False 200 expired_grabber_scenario)) 40 = None"
  by code_simp

section \<open>The order of the signals of a removal\<close>

text \<open>
  Claim C9, as amended. The signals of a sweep split in two: those of the loop, with
  every \<open>priorityChanged\<close> of an expiry and no \<open>visiblePriorityChanged\<close>, and after
  them those of the selection, with no \<open>priorityChanged\<close>. In a successful
  \<open>clearInput\<close> the order is the other way round: the signals of its sweep come
  first, \<open>visiblePriorityChanged\<close> with the new priority among them when the published
  priority changed, and \<open>priorityChanged(p, false)\<close> and \<open>prioritiesChanged\<close> come
  last.
\<close>

theorem C9_event_order:
  "(\<exists>evs tl. emitted (setCurrentTime now s) = emitted s @ evs @ tl
      \<and> (\<forall>e \<in> set evs. \<not> is_visiblePriorityChanged e)
      \<and> (\<forall>e \<in> set tl. \<not> is_priorityChanged e))
   \<and> (fst (clearInput p now s) \<longrightarrow>
       (\<exists>sw. emitted (snd (clearInput p now s))
                = emitted s @ sw @ [priorityChanged (uint8_t p) False, prioritiesChanged]
          \<and> (currentPriority (snd (clearInput p now s)) \<noteq> currentPriority s \<longrightarrow>
               visiblePriorityChanged (currentPriority (snd (clearInput p now s))) \<in> set sw)))"
proof
  show "\<exists>evs tl. emitted (setCurrentTime now s) = emitted s @ evs @ tl
      \<and> (\<forall>e \<in> set evs. \<not> is_visiblePriorityChanged e)
      \<and> (\<forall>e \<in> set tl. \<not> is_priorityChanged e)"
    using setCurrentTime_emitted [of now s] by blast
next
  show "fst (clearInput p now s) \<longrightarrow>
       (\<exists>sw. emitted (snd (clearInput p now s))
                = emitted s @ sw @ [priorityChanged (uint8_t p) False, prioritiesChanged]
          \<and> (currentPriority (snd (clearInput p now s)) \<noteq> currentPriority s \<longrightarrow>
               visiblePriorityChanged (currentPriority (snd (clearInput p now s))) \<in> set sw))"
  proof
    assume ok: "fst (clearInput p now s)"
    let ?s1 = "s\<lparr>activeInputs := snd (QMap_remove (uint8_t p) (activeInputs s))\<rparr>"
    have c: "snd (clearInput p now s)
               = emit prioritiesChanged (emit (priorityChanged (uint8_t p) False) (setCurrentTime now ?s1))"
      using ok by (simp add: clearInput_def Let_def split: if_splits)
    obtain evs tl where e: "emitted (setCurrentTime now ?s1) = emitted ?s1 @ evs @ tl"
      and v: "currentPriority (setCurrentTime now ?s1) \<noteq> currentPriority ?s1 \<longrightarrow>
           visiblePriorityChanged (currentPriority (setCurrentTime now ?s1)) \<in> set tl"
      using setCurrentTime_emitted [of now ?s1] by blast
    have "emitted (snd (clearInput p now s))
            = emitted s @ (evs @ tl) @ [priorityChanged (uint8_t p) False, prioritiesChanged]"
      unfolding c using e by (simp add: emit_fields)
    moreover have "currentPriority (snd (clearInput p now s)) \<noteq> currentPriority s \<longrightarrow>
               visiblePriorityChanged (currentPriority (snd (clearInput p now s))) \<in> set (evs @ tl)"
      unfolding c using v by (simp add: emit_fields)
    ultimately show "\<exists>sw. emitted (snd (clearInput p now s))
                = emitted s @ sw @ [priorityChanged (uint8_t p) False, prioritiesChanged]
          \<and> (currentPriority (snd (clearInput p now s)) \<noteq> currentPriority s \<longrightarrow>
               visiblePriorityChanged (currentPriority (snd (clearInput p now s))) \<in> set sw)"
      by blast
  qed
qed

theorem C9_event_order_witness:
  "fst (clearInput 100 0 visible_scenario)
   \<and> currentPriority (snd (clearInput 100 0 visible_scenario)) \<noteq> currentPriority visible_scenario
   \<and> (\<exists>sw. emitted (snd (clearInput 100 0 visible_scenario))
                = emitted visible_scenario @ sw @ [priorityChanged (uint8_t 100) False, prioritiesChanged]
          \<and> visiblePriorityChanged (currentPriority (snd (clearInput 100 0 visible_scenario))) \<in> set sw)"
proof -
  have h: "fst (clearInput 100 0 visible_scenario)"
    by code_simp
  have n: "currentPriority (snd (clearInput 100 0 visible_scenario)) \<noteq> currentPriority visible_scenario"
    by code_simp
  show ?thesis
    using h n C9_event_order [of 0 visible_scenario 100] by blast
qed

text \<open>
  The claim as first written has \<open>visiblePriorityChanged\<close> never before
  \<open>priorityChanged(p, false)\<close>, also for \<open>clearInput\<close>. Clearing the visible priority
  \<open>100\<close> emits \<open>visiblePriorityChanged(255)\<close> first.
\<close>

theorem C9_counterexample:
  "currentPriority visible_scenario = 100
   \<and> drop (length (emitted visible_scenario)) (emitted (snd (clearInput 100 0 visible_scenario)))
      = [visiblePriorityChanged 255, prioritiesChanged, priorityChanged 100 False, prioritiesChanged]"
  by code_simp

section \<open>What setInput and setInputImage change in a record\<close>

text \<open>
  Claim C10, as amended. For a registered priority, \<open>setInput\<close> leaves at that priority
  either no record or the record before the call with the timeout and the colours
  replaced, and \<open>setInputImage\<close> either no record or the record before the call with
  the timeout and the image replaced: the other payload, the component, the origin,
  the owner and the smoothing configuration are unchanged. The record is gone exactly
  when the call takes it from inactive to a positive deadline that has passed at the
  reading of the clock in the sweep of the call. When the first of two calls keeps
  the record, the second, in either order, leaves no record or a record with both
  payloads.
\<close>

theorem C10_frame:
  assumes "map_of (activeInputs s) p = Some info"
  shows "map_of (activeInputs (snd (setInput p colors t now now' s))) p
           = (if expires_in_call (timeoutTime_ms info) (final_timeout now t) now' then None
              else Some (info\<lparr>timeoutTime_ms := final_timeout now t, ledColors := colors\<rparr>))
       \<and> map_of (activeInputs (snd (setInputImage p img t now now' s))) p
           = (if expires_in_call (timeoutTime_ms info) (final_timeout now t) now' then None
              else Some (info\<lparr>timeoutTime_ms := final_timeout now t, image' := img\<rparr>))
       \<and> (\<not> expires_in_call (timeoutTime_ms info) (final_timeout now t) now' \<longrightarrow>
            map_of (activeInputs (snd (setInputImage p img t2 now2 now2'
                (snd (setInput p colors t now now' s))))) p
              = (if expires_in_call (final_timeout now t) (final_timeout now2 t2) now2' then None
                 else Some (info\<lparr>timeoutTime_ms := final_timeout now2 t2,
                                  ledColors := colors, image' := img\<rparr>))
          \<and> map_of (activeInputs (snd (setInput p colors t2 now2 now2'
                (snd (setInputImage p img t now now' s))))) p
              = (if expires_in_call (final_timeout now t) (final_timeout now2 t2) now2' then None
                 else Some (info\<lparr>timeoutTime_ms := final_timeout now2 t2,
                                  ledColors := colors, image' := img\<rparr>)))"
proof -
  let ?x = "expires_in_call (timeoutTime_ms info) (final_timeout now t) now'"
  let ?c = "info\<lparr>timeoutTime_ms := final_timeout now t, ledColors := colors\<rparr>"
  let ?i = "info\<lparr>timeoutTime_ms := final_timeout now t, image' := img\<rparr>"
  have 1: "map_of (activeInputs (snd (setInput p colors t now now' s))) p
             = (if ?x then None else Some ?c)"
    by (rule setInput_record [OF assms])
  have 2: "map_of (activeInputs (snd (setInputImage p img t now now' s))) p
             = (if ?x then None else Some ?i)"
    by (rule setInputImage_record [OF assms])
  have 3: "map_of (activeInputs (snd (setInputImage p img t2 now2 now2'
                (snd (setInput p colors t now now' s))))) p
              = (if expires_in_call (final_timeout now t) (final_timeout now2 t2) now2' then None
                 else Some (info\<lparr>timeoutTime_ms := final_timeout now2 t2,
                                  ledColors := colors, image' := img\<rparr>))"
    if "\<not> ?x"
  proof -
    have "map_of (activeInputs (snd (setInput p colors t now now' s))) p = Some ?c"
      using 1 that by simp
    then show ?thesis
      using setInputImage_record [of "snd (setInput p colors t now now' s)" p ?c img t2 now2 now2']
      by simp
  qed
  have 4: "map_of (activeInputs (snd (setInput p colors t2 now2 now2'
                (snd (setInputImage p img t now now' s))))) p
              = (if expires_in_call (final_timeout now t) (final_timeout now2 t2) now2' then None
                 else Some (info\<lparr>timeoutTime_ms := final_timeout now2 t2,
                                  ledColors := colors, image' := img\<rparr>))"
    if "\<not> ?x"
  proof -
    have "map_of (activeInputs (snd (setInputImage p img t now now' s))) p = Some ?i"
      using 2 that by simp
    then show ?thesis
      using setInput_record [of "snd (setInputImage p img t now now' s)" p ?i colors t2 now2 now2']
      by simp
  qed
  show ?thesis using 1 2 3 4 by blast
qed

theorem C10_frame_witness:
  "map_of (activeInputs registered_scenario) 50 = Some registered_info
   \<and> \<not> expires_in_call (timeoutTime_ms registered_info) (final_timeout 10 300) 11
   \<and> \<not> expires_in_call (final_timeout 10 300) (final_timeout 20 (- 1)) 21
   \<and> map_of (activeInputs (snd (setInput 50 [RED] 300 10 11 registered_scenario))) 50
      = Some (registered_info\<lparr>timeoutTime_ms := 310, ledColors := [RED]\<rparr>)
   \<and> map_of (activeInputs (snd (setInputImage 50 Image_empty (- 1) 20 21
        (snd (setInput 50 [RED] 300 10 11 registered_scenario))))) 50
      = Some (registered_info\<lparr>timeoutTime_ms := - 1, ledColors := [RED], image' := Image_empty\<rparr>)"
proof -
  have h: "map_of (activeInputs registered_scenario) 50 = Some registered_info"
    by code_simp
  have a: "\<not> expires_in_call (timeoutTime_ms registered_info) (final_timeout 10 300) 11"
    by code_simp
  have b: "\<not> expires_in_call (final_timeout 10 300) (final_timeout 20 (- 1)) 21"
    by code_simp
  have f: "final_timeout 10 300 = 310" "final_timeout 20 (- 1) = - 1"
    by code_simp+
  show ?thesis
    using h a b f C10_frame [OF h, of "[RED]" 300 10 11 Image_empty "- 1" 20 21]
    by simp
qed

text \<open>
  The claim as first written keeps the record in every call. Priority \<open>50\<close>,
  registered and inactive, is set with the timeout \<open>1\<close> when the clock reads
  \<open>1000\<close>; the sweep of the same call reads \<open>1001\<close>, finds the deadline \<open>1001\<close>
  passed and erases the record.
\<close>

theorem C10_counterexample:
  "map_of (activeInputs registered_scenario) 50 = Some registered_info
   \<and> map_of (activeInputs (snd (setInput 50 [RED] 1 1000 1001 registered_scenario))) 50 = None"
  by code_simp

end
